theory Spec2Isabelle
  imports Complex_Main
begin

section \<open>The multi-file upload pipeline of \<^verbatim>\<open>frontend/app.js\<close>\<close>

text \<open>
  A shallow embedding of \<^verbatim>\<open>handleMultipleFiles\<close>, \<^verbatim>\<open>handleFileUpload\<close>,
  \<^verbatim>\<open>displayOCRResults\<close> and \<^verbatim>\<open>formatFileSize\<close>. The two module-level variables
  \<^verbatim>\<open>uploadQueue\<close> and \<^verbatim>\<open>currentDocument\<close> become fields of a state record that every
  function takes and returns; what the functions do to the outside (a call of
  \<^verbatim>\<open>renderUploadQueue\<close>, the POST to \<^verbatim>\<open>/upload-ocr\<close>, a call of \<^verbatim>\<open>showToast\<close>) is
  appended to a trace kept in the same record. What comes back from the network is a
  parameter. \<^verbatim>\<open>handleMultipleFiles\<close> is modelled twice: as a function, for an invocation
  that runs from its first statement to its last with no other invocation in between,
  and as the steps an invocation takes between two \<^verbatim>\<open>await\<close>s, which the steps of other
  invocations may separate; \<open>alone_run\<close> shows that the function is the run of the
  steps of one invocation alone.
\<close>

subsection \<open>Strings and numbers as JavaScript prints them\<close>

text \<open>
  Strings are \<^typ>\<open>string\<close>. \<^verbatim>\<open>String.prototype.toLowerCase\<close> is modelled on the ASCII
  letters: no character outside ASCII is lower-cased to one of the letters of the
  allow-list, so membership in the allow-list is decided the same way.
\<close>

definition toLowerCase_char :: "char \<Rightarrow> char" where
  "toLowerCase_char c =
     (let n = (of_char c :: nat) in if 65 \<le> n \<and> n \<le> 90 then char_of (n + 32) else c)"

definition toLowerCase :: "string \<Rightarrow> string" where
  "toLowerCase s = map toLowerCase_char s"

text \<open>
  \<^verbatim>\<open>s.split(sep)\<close> for a one-character separator: the pieces between the separators,
  \<^verbatim>\<open>[""]\<close> for the empty string. \<open>cur\<close> is the piece being read, reversed.
\<close>

fun split_acc :: "char \<Rightarrow> string \<Rightarrow> string \<Rightarrow> string list" where
  "split_acc sep cur [] = [rev cur]"
| "split_acc sep cur (c # cs) =
     (if c = sep then rev cur # split_acc sep [] cs else split_acc sep (c # cur) cs)"

definition split :: "char \<Rightarrow> string \<Rightarrow> string list" where
  "split sep s = split_acc sep [] s"

text \<open>\<^verbatim>\<open>Array.prototype.pop\<close>: the last element, \<^verbatim>\<open>undefined\<close> (here \<open>None\<close>) on \<^verbatim>\<open>[]\<close>.\<close>

definition pop :: "'a list \<Rightarrow> 'a option" where
  "pop xs = (case rev xs of [] \<Rightarrow> None | x # _ \<Rightarrow> Some x)"

text \<open>\<^verbatim>\<open>xs.join(sep)\<close> on an array of strings.\<close>

fun join :: "string \<Rightarrow> string list \<Rightarrow> string" where
  "join sep [] = []"
| "join sep [x] = x"
| "join sep (x # y # ys) = x @ sep @ join sep (y # ys)"

text \<open>The decimal digits of a natural number, as \<^verbatim>\<open>String(n)\<close> gives them below \<open>10\<^sup>2\<^sup>1\<close>.\<close>

definition digit_char :: "nat \<Rightarrow> char" where
  "digit_char d = char_of (48 + d)"

function decimal :: "nat \<Rightarrow> string" where
  "decimal n = (if n < 10 then [digit_char n] else decimal (n div 10) @ [digit_char (n mod 10)])"
  by pat_completeness auto
termination
  by (relation "measure id") auto

declare decimal.simps [simp del]

text \<open>
  \<^verbatim>\<open>x.toFixed(1)\<close> for \<open>0 \<le> x < 10\<^sup>2\<^sup>1\<close> (ECMA-262, Number.prototype.toFixed): with \<open>n\<close>
  the integer for which \<open>n / 10 - x\<close> is closest to zero, the larger one of two, the
  digits of \<open>n\<close> with a point before the last one. The argument is the exact value of the
  double: \<^verbatim>\<open>bytes / 1024\<close> and \<^verbatim>\<open>bytes / (1024 * 1024)\<close> are exact for every integer
  below \<open>2\<^sup>5\<^sup>3\<close>, a division by a power of two.
\<close>

definition toFixed1 :: "rat \<Rightarrow> string" where
  "toFixed1 x =
     (let n = nat \<lfloor>x * 10 + 1 / 2\<rfloor> in decimal (n div 10) @ ''.'' @ decimal (n mod 10))"

text \<open>\<^verbatim>\<open>formatFileSize(bytes)\<close>, lines 293-297; \<^verbatim>\<open>File.size\<close> is a byte count.\<close>

definition formatFileSize :: "nat \<Rightarrow> string" where
  "formatFileSize bytes =
     (if bytes < 1024 then decimal bytes @ '' B''
      else if bytes < 1024 * 1024 then toFixed1 (of_nat bytes / 1024) @ '' KB''
      else toFixed1 (of_nat bytes / (1024 * 1024)) @ '' MB'')"

subsection \<open>The extension filter\<close>

text \<open>
  Lines 212-218. The callback computes
  \<^verbatim>\<open>'.' + file.name.split('.').pop().toLowerCase()\<close> and keeps the file when
  \<^verbatim>\<open>validTypes.includes(ext)\<close>. \<^verbatim>\<open>pop()\<close> on an empty array would give \<^verbatim>\<open>undefined\<close> and
  the call of \<^verbatim>\<open>toLowerCase\<close> would throw; that is the \<open>None\<close> branch, which
  \<open>file_ext_eq\<close> below shows is never taken.
\<close>

record js_file =
  file_name :: string
  file_size :: nat

definition validTypes :: "string list" where
  "validTypes = [''.pdf'', ''.png'', ''.jpg'', ''.jpeg'', ''.tiff'']"

definition file_ext :: "string \<Rightarrow> string option" where
  "file_ext name =
     (case pop (split (CHR ''.'') name) of
        None \<Rightarrow> None
      | Some p \<Rightarrow> Some (''.'' @ toLowerCase p))"

definition is_valid :: "js_file \<Rightarrow> bool" where
  "is_valid f =
     (case file_ext (file_name f) of
        None \<Rightarrow> False
      | Some ext \<Rightarrow> ext \<in> set validTypes)"

subsection \<open>Values returned by the extraction service\<close>

text \<open>
  What \<^verbatim>\<open>response.json()\<close> resolves to: a JavaScript value built from JSON. An object
  is the list of its own properties. \<^verbatim>\<open>JUndefined\<close> is what reading a missing property
  gives; it never comes from the parser itself. A number is carried by its value: the
  code modelled here only tests whether it is zero.
\<close>

datatype jsval =
    JUndefined
  | JNull
  | JBool bool
  | JNum rat
  | JStr string
  | JArr "jsval list"
  | JObj "(string \<times> jsval) list"

datatype js_error = FetchRejected | UploadFailed | JsonSyntaxError | TypeError

text \<open>
  \<^verbatim>\<open>v.k\<close> for the property names the code reads (none of them is defined on a
  prototype): a \<^verbatim>\<open>TypeError\<close> on \<^verbatim>\<open>undefined\<close> and \<^verbatim>\<open>null\<close>, the property of an
  object, \<^verbatim>\<open>undefined\<close> otherwise.
\<close>

fun get_prop :: "jsval \<Rightarrow> string \<Rightarrow> js_error + jsval" where
  "get_prop JUndefined k = Inl TypeError"
| "get_prop JNull k = Inl TypeError"
| "get_prop (JObj ps) k = Inr (case map_of ps k of None \<Rightarrow> JUndefined | Some v \<Rightarrow> v)"
| "get_prop v k = Inr JUndefined"

text \<open>Truthiness, as \<^verbatim>\<open>if (v)\<close> and \<^verbatim>\<open>v ? a : b\<close> test it.\<close>

fun truthy :: "jsval \<Rightarrow> bool" where
  "truthy JUndefined = False"
| "truthy JNull = False"
| "truthy (JBool b) = b"
| "truthy (JNum r) = (r \<noteq> 0)"
| "truthy (JStr s) = (s \<noteq> [])"
| "truthy (JArr xs) = True"
| "truthy (JObj ps) = True"

text \<open>
  \<^verbatim>\<open>v.toLowerCase()\<close> and \<^verbatim>\<open>v.toUpperCase()\<close>: only a string has the method; on any
  other value built from JSON the call is a \<^verbatim>\<open>TypeError\<close>.
\<close>

fun call_string_method :: "jsval \<Rightarrow> js_error + unit" where
  "call_string_method (JStr s) = Inr ()"
| "call_string_method v = Inl TypeError"

definition then_do :: "js_error + 'a \<Rightarrow> ('a \<Rightarrow> js_error + 'b) \<Rightarrow> js_error + 'b" where
  "then_do r f = (case r of Inl e \<Rightarrow> Inl e | Inr v \<Rightarrow> f v)"

text \<open>\<^verbatim>\<open>v.a.b\<close>\<close>

definition get_prop2 :: "jsval \<Rightarrow> string \<Rightarrow> string \<Rightarrow> js_error + jsval" where
  "get_prop2 v a b = then_do (get_prop v a) (\<lambda>m. get_prop m b)"

text \<open>
  The outcome of \<^verbatim>\<open>fetch('/upload-ocr', ...)\<close> followed by \<^verbatim>\<open>response.json()\<close>: the
  promise of \<^verbatim>\<open>fetch\<close> rejects, or it resolves to a response with its \<^verbatim>\<open>ok\<close> flag and
  what \<^verbatim>\<open>json()\<close> would resolve to (\<open>None\<close>: it rejects, the body is not JSON).
\<close>

datatype fetch_result = Rejected | Response bool "jsval option"

subsection \<open>The state\<close>

datatype status = Pending | Processing | Done | Error

record queue_item =
  item_id :: nat
  item_file :: js_file
  item_name :: string
  item_size :: string
  item_status :: status

text \<open>
  \<^verbatim>\<open>currentDocument\<close>, lines 10-15. Its field \<^verbatim>\<open>summaries\<close> is written by
  \<^verbatim>\<open>generateSummaries\<close> only and read by no function modelled here; it is left out.
\<close>

record document =
  docId :: jsval
  doc_text :: jsval
  category :: jsval

datatype event =
    RenderUploadQueue "queue_item list"
  | FetchUploadOcr js_file
  | ShowToast string string string

record state =
  uploadQueue :: "queue_item list"
  currentDocument :: document
  trace :: "event list"

text \<open>
  \<^verbatim>\<open>renderUploadQueue()\<close> and \<^verbatim>\<open>showToast(type, title, message)\<close> write to the page
  only; the model records the call, with the queue as it is at that moment.
\<close>

definition renderUploadQueue :: "state \<Rightarrow> state" where
  "renderUploadQueue s = s\<lparr>trace := trace s @ [RenderUploadQueue (uploadQueue s)]\<rparr>"

definition showToast :: "string \<Rightarrow> string \<Rightarrow> string \<Rightarrow> state \<Rightarrow> state" where
  "showToast type title message s = s\<lparr>trace := trace s @ [ShowToast type title message]\<rparr>"

subsection \<open>One upload: \<^verbatim>\<open>handleFileUpload\<close> and \<^verbatim>\<open>displayOCRResults\<close>\<close>

text \<open>
  The two elements of the page whose presence decides what \<^verbatim>\<open>displayOCRResults\<close>
  evaluates: \<^verbatim>\<open>getElementById('textStats')\<close> and \<^verbatim>\<open>getElementById('extractedText')\<close>.
\<close>

record page =
  textStats :: bool
  extractedText :: bool

text \<open>
  ToString and ToNumber of a value built from JSON, as a template literal,
  \<^verbatim>\<open>Math.round\<close> and the assignment to a string attribute of an element apply them. An
  object with an own property \<^verbatim>\<open>toString\<close> has no callable \<^verbatim>\<open>toString\<close> (JSON holds no
  function) and its \<^verbatim>\<open>valueOf\<close> returns no primitive: the conversion throws a
  \<^verbatim>\<open>TypeError\<close>. An array is joined, which converts its elements. Every other value is
  converted without an error.
\<close>

fun to_primitive :: "jsval \<Rightarrow> js_error + unit" where
  "to_primitive (JObj ps) = (if map_of ps ''toString'' = None then Inr () else Inl TypeError)"
| "to_primitive (JArr xs) =
     (if list_ex (\<lambda>x. to_primitive x = Inl TypeError) xs then Inl TypeError else Inr ())"
| "to_primitive v = Inr ()"

text \<open>
  \<^verbatim>\<open>displayOCRResults(data)\<close>, lines 432-456. When the page has \<^verbatim>\<open>textStats\<close>, the
  category is stored in \<^verbatim>\<open>currentDocument\<close> (if truthy, and before \<^verbatim>\<open>toLowerCase\<close> is called
  on it) and the template of lines 443-450 evaluates, in this order,
  \<^verbatim>\<open>data.metadata.page_count\<close> and \<^verbatim>\<open>data.metadata.word_count\<close> (each converted to a
  string), \<^verbatim>\<open>Math.round(data.confidence.overall_confidence)\<close>,
  \<^verbatim>\<open>data.metadata.language.toUpperCase()\<close> and \<^verbatim>\<open>data.metadata.has_handwriting\<close>. When the
  page has \<^verbatim>\<open>extractedText\<close>, line 454 assigns \<^verbatim>\<open>data.text\<close> to its \<^verbatim>\<open>textContent\<close>, which
  converts it to a string unless it is \<^verbatim>\<open>null\<close> or \<^verbatim>\<open>undefined\<close>.
\<close>

definition textStats_template :: "jsval \<Rightarrow> js_error + unit" where
  "textStats_template data =
     then_do (get_prop2 data ''metadata'' ''page_count'') (\<lambda>page_count.
     then_do (to_primitive page_count) (\<lambda>_.
     then_do (get_prop2 data ''metadata'' ''word_count'') (\<lambda>word_count.
     then_do (to_primitive word_count) (\<lambda>_.
     then_do (get_prop2 data ''confidence'' ''overall_confidence'') (\<lambda>confidence.
     then_do (to_primitive confidence) (\<lambda>_.
     then_do (get_prop2 data ''metadata'' ''language'') (\<lambda>language.
     then_do (call_string_method language) (\<lambda>_.
     then_do (get_prop2 data ''metadata'' ''has_handwriting'') (\<lambda>_. Inr ())))))))))"

text \<open>Lines 436-451, the block guarded by \<^verbatim>\<open>if (textStats)\<close>.\<close>

definition show_textStats :: "jsval \<Rightarrow> state \<Rightarrow> (js_error + unit) \<times> state" where
  "show_textStats data s =
     (case get_prop data ''category'' of
        Inl e \<Rightarrow> (Inl e, s)
      | Inr c \<Rightarrow>
          if truthy c then
            (let s1 = s\<lparr>currentDocument := (currentDocument s)\<lparr>category := c\<rparr>\<rparr> in
             case call_string_method c of
               Inl e \<Rightarrow> (Inl e, s1)
             | Inr _ \<Rightarrow> (textStats_template data, s1))
          else (textStats_template data, s))"

text \<open>Lines 453-455, the block guarded by \<^verbatim>\<open>if (extractedText)\<close>.\<close>

definition show_extractedText :: "jsval \<Rightarrow> js_error + unit" where
  "show_extractedText data = then_do (get_prop data ''text'') to_primitive"

definition displayOCRResults :: "page \<Rightarrow> jsval \<Rightarrow> state \<Rightarrow> (js_error + unit) \<times> state" where
  "displayOCRResults pg data s =
     (case (if textStats pg then show_textStats data s else (Inr (), s)) of
        (Inl e, s1) \<Rightarrow> (Inl e, s1)
      | (Inr _, s1) \<Rightarrow>
          (if extractedText pg then show_extractedText data else Inr (), s1))"

text \<open>
  \<^verbatim>\<open>handleFileUpload(file)\<close>, lines 299-348, in two parts. The first runs up to the
  \<^verbatim>\<open>await\<close> of line 309 and makes the request. The second, \<open>receive_response\<close>, runs
  when the request has its outcome \<open>resp\<close>. Its result is what the promise of
  \<^verbatim>\<open>handleFileUpload\<close> settles to: \<open>Inl\<close> when it rejects (the \<^verbatim>\<open>catch\<close> of the caller),
  \<open>Inr data\<close> when it resolves. The state is returned in both cases: what was assigned
  before a \<^verbatim>\<open>throw\<close> stays assigned. The status line of line 325 converts
  \<^verbatim>\<open>data.metadata.word_count\<close> and \<^verbatim>\<open>data.metadata.page_count\<close> to strings.
  \<^verbatim>\<open>generateSummaries\<close> and \<^verbatim>\<open>extractActions\<close> return at once or run inside their own
  \<^verbatim>\<open>try\<close>/\<^verbatim>\<open>catch\<close>, \<^verbatim>\<open>loadStats\<close> is not awaited and catches too: none of them throws
  into \<^verbatim>\<open>handleFileUpload\<close>, and none writes \<^verbatim>\<open>uploadQueue\<close>, \<^verbatim>\<open>docId\<close>, \<^verbatim>\<open>text\<close> or
  \<^verbatim>\<open>category\<close>.
\<close>

definition issue_request :: "js_file \<Rightarrow> state \<Rightarrow> state" where
  "issue_request file s = s\<lparr>trace := trace s @ [FetchUploadOcr file]\<rparr>"

definition receive_response ::
  "page \<Rightarrow> fetch_result \<Rightarrow> state \<Rightarrow> (js_error + jsval) \<times> state" where
  "receive_response pg resp s1 =
     (case resp of
        Rejected \<Rightarrow> (Inl FetchRejected, s1)
      | Response ok body \<Rightarrow>
          if \<not> ok then (Inl UploadFailed, s1)
          else
            (case body of
               None \<Rightarrow> (Inl JsonSyntaxError, s1)
             | Some data \<Rightarrow>
                 (case get_prop data ''doc_id'' of
                    Inl e \<Rightarrow> (Inl e, s1)
                  | Inr d \<Rightarrow>
                      (let s2 = s1\<lparr>currentDocument := (currentDocument s1)\<lparr>docId := d\<rparr>\<rparr> in
                       case get_prop data ''text'' of
                         Inl e \<Rightarrow> (Inl e, s2)
                       | Inr t \<Rightarrow>
                           (let s3 = s2\<lparr>currentDocument := (currentDocument s2)\<lparr>doc_text := t\<rparr>\<rparr> in
                            case then_do (get_prop2 data ''metadata'' ''word_count'') (\<lambda>word_count.
                                 then_do (to_primitive word_count) (\<lambda>_.
                                 then_do (get_prop2 data ''metadata'' ''page_count'') to_primitive)) of
                              Inl e \<Rightarrow> (Inl e, s3)
                            | Inr _ \<Rightarrow>
                                (case displayOCRResults pg data s3 of
                                   (Inl e, s4) \<Rightarrow> (Inl e, s4)
                                 | (Inr _, s4) \<Rightarrow> (Inr data, s4)))))))"

definition handleFileUpload ::
  "page \<Rightarrow> fetch_result \<Rightarrow> js_file \<Rightarrow> state \<Rightarrow> (js_error + jsval) \<times> state" where
  "handleFileUpload pg resp file s = receive_response pg resp (issue_request file s)"

subsection \<open>The batch: \<^verbatim>\<open>handleMultipleFiles\<close>\<close>

text \<open>\<^verbatim>\<open>uploadQueue[i].status = st\<close>, for an index inside the queue.\<close>

definition set_status :: "nat \<Rightarrow> status \<Rightarrow> state \<Rightarrow> state" where
  "set_status i st s =
     s\<lparr>uploadQueue := (uploadQueue s)[i := (uploadQueue s ! i)\<lparr>item_status := st\<rparr>]\<rparr>"

text \<open>
  The body of the loop, lines 246-257. \<open>net i f\<close> is the outcome of the request the
  \<open>i\<close>-th iteration makes for the file \<open>f\<close>. The \<^verbatim>\<open>catch\<close> also writes the error to
  the console, which is not recorded.
\<close>

definition loop_body :: "page \<Rightarrow> (nat \<Rightarrow> js_file \<Rightarrow> fetch_result) \<Rightarrow> nat \<Rightarrow> state \<Rightarrow> state" where
  "loop_body pg net i s =
     (let s1 = renderUploadQueue (set_status i Processing s);
          f = item_file (uploadQueue s1 ! i)
      in case handleFileUpload pg (net i f) f s1 of
           (Inr _, s2) \<Rightarrow> renderUploadQueue (set_status i Done s2)
         | (Inl _, s2) \<Rightarrow> renderUploadQueue (set_status i Error s2))"

text \<open>
  \<^verbatim>\<open>for (let i = 0; i < uploadQueue.length; i++)\<close>, from the index \<open>i\<close> on, when nothing
  else runs while the loop is suspended.
\<close>

function process_from :: "page \<Rightarrow> (nat \<Rightarrow> js_file \<Rightarrow> fetch_result) \<Rightarrow> nat \<Rightarrow> state \<Rightarrow> state" where
  "process_from pg net i s =
     (if i < length (uploadQueue s) then process_from pg net (Suc i) (loop_body pg net i s)
      else s)"
  by pat_completeness auto
termination
  by (relation "measure (\<lambda>(pg, net, i, s). length (uploadQueue s) - i)")
     (auto simp: loop_body_def handleFileUpload_def receive_response_def issue_request_def
         displayOCRResults_def show_textStats_def set_status_def renderUploadQueue_def Let_def
       split: fetch_result.splits option.splits sum.splits prod.splits if_splits)

declare process_from.simps [simp del]

text \<open>Lines 234-240: the queue built from the files that passed the filter.\<close>

definition enqueue :: "js_file list \<Rightarrow> queue_item list" where
  "enqueue validFiles =
     map (\<lambda>(index, file).
            \<lparr>item_id = index, item_file = file, item_name = file_name file,
             item_size = formatFileSize (file_size file), item_status = Pending\<rparr>)
       (enumerate 0 validFiles)"

text \<open>
  \<^verbatim>\<open>handleMultipleFiles(files)\<close>, lines 211-261, for an invocation that no other
  invocation overlaps: the loop then works on the queue it has built itself.
\<close>

definition handleMultipleFiles ::
  "page \<Rightarrow> (nat \<Rightarrow> js_file \<Rightarrow> fetch_result) \<Rightarrow> js_file list \<Rightarrow> state \<Rightarrow> state" where
  "handleMultipleFiles pg net files s =
     (let validFiles = filter is_valid files in
      if length validFiles = 0 then
        showToast ''error'' ''Invalid Files''
          (''Only '' @ join '', '' validTypes @ '' are supported'') s
      else
        (let s1 = renderUploadQueue (s\<lparr>uploadQueue := enqueue validFiles\<rparr>);
             s2 = process_from pg net 0 s1
         in showToast ''success'' ''Upload Complete''
              (''Processed '' @ decimal (length validFiles) @ '' file(s)'') s2))"

subsection \<open>Invocations that overlap\<close>

text \<open>
  \<^verbatim>\<open>handleMultipleFiles\<close> is an \<^verbatim>\<open>async\<close> function: it runs until an \<^verbatim>\<open>await\<close>, is
  suspended there, and other code runs before it is resumed. The handlers of lines
  186-208 call it without waiting for it and nothing keeps a second call from being made
  while a first is suspended. \<^verbatim>\<open>uploadQueue\<close> is one variable of the module, assigned at
  line 234 and read again at lines 245-257 after every \<^verbatim>\<open>await\<close>.

  An invocation that is suspended is at \<^verbatim>\<open>await handleFileUpload(...)\<close> of line 250, in the
  iteration \<open>i\<close>: its request is under way (\<open>Awaiting i\<close>), or its response has been
  handled and \<^verbatim>\<open>handleFileUpload\<close> has settled with a result that the loop has not yet
  taken (\<open>Settling i r\<close>). It keeps its own \<^verbatim>\<open>i\<close> and \<^verbatim>\<open>validFiles\<close>, of which only the
  length is used again (line 260).
\<close>

datatype phase = Awaiting nat | Settling nat "js_error + jsval"

record invocation =
  validFiles_length :: nat
  phase_of :: phase

datatype action = Start "js_file list" | Respond nat fetch_result | Settle nat

record world =
  shared :: state
  invocations :: "invocation option list"

text \<open>
  Lines 246-250 and the part of \<^verbatim>\<open>handleFileUpload\<close> before its first \<^verbatim>\<open>await\<close>: the item
  \<open>i\<close> of the queue as it is now becomes \<^verbatim>\<open>processing\<close>, the queue is rendered and the
  request for the file of that item is made.
\<close>

definition begin_item :: "nat \<Rightarrow> state \<Rightarrow> state" where
  "begin_item i s =
     (let s1 = renderUploadQueue (set_status i Processing s)
      in issue_request (item_file (uploadQueue s1 ! i)) s1)"

text \<open>
  The head of the loop, line 245, and what follows it: the next iteration as far as its
  \<^verbatim>\<open>await\<close> when \<open>i\<close> is inside the queue as it is now, the toast of line 260 and the end of
  the invocation otherwise.
\<close>

definition next_item :: "nat \<Rightarrow> nat \<Rightarrow> state \<Rightarrow> state \<times> invocation option" where
  "next_item n i s =
     (if i < length (uploadQueue s)
      then (begin_item i s, Some \<lparr>validFiles_length = n, phase_of = Awaiting i\<rparr>)
      else (showToast ''success'' ''Upload Complete''
              (''Processed '' @ decimal n @ '' file(s)'') s, None))"

text \<open>Lines 251-257 for an index inside the queue: the status and the rendering.\<close>

definition settle_item :: "nat \<Rightarrow> js_error + jsval \<Rightarrow> state \<Rightarrow> state" where
  "settle_item i r s =
     (case r of
        Inr _ \<Rightarrow> renderUploadQueue (set_status i Done s)
      | Inl _ \<Rightarrow> renderUploadQueue (set_status i Error s))"

text \<open>The invocation number \<open>t\<close>, if it is suspended.\<close>

definition awaiting :: "world \<Rightarrow> nat \<Rightarrow> invocation option" where
  "awaiting w t = (if t < length (invocations w) then invocations w ! t else None)"

text \<open>
  What runs between two suspensions. \<open>Start files\<close> is a call of
  \<^verbatim>\<open>handleMultipleFiles(files)\<close> as far as its first \<^verbatim>\<open>await\<close> (or to its end, when no file is
  kept). \<open>Respond t resp\<close> gives the request of invocation \<open>t\<close> its outcome and runs
  \<^verbatim>\<open>handleFileUpload\<close> to its end (its later \<^verbatim>\<open>await\<close>s, of \<^verbatim>\<open>generateSummaries\<close> and
  \<^verbatim>\<open>extractActions\<close>, separate nothing that the state records). \<open>Settle t\<close> resumes the loop of invocation \<open>t\<close> with
  that result: lines 251-257, then the next iteration as far as its \<^verbatim>\<open>await\<close>. When the
  queue has been replaced by a shorter one, \<^verbatim>\<open>uploadQueue[i]\<close> is \<^verbatim>\<open>undefined\<close>; the
  assignment of line 251 throws, or that of line 253 does, which is inside the \<^verbatim>\<open>catch\<close>:
  the invocation ends there, without the toast. A step that is not possible (no such
  suspended invocation, or not in that phase) is \<open>None\<close>.
\<close>

definition step :: "page \<Rightarrow> action \<Rightarrow> world \<Rightarrow> world option" where
  "step pg a w =
     (case a of
        Start files \<Rightarrow>
          (let validFiles = filter is_valid files in
           if length validFiles = 0 then
             Some (w\<lparr>shared := showToast ''error'' ''Invalid Files''
                       (''Only '' @ join '', '' validTypes @ '' are supported'') (shared w),
                     invocations := invocations w @ [None]\<rparr>)
           else
             (let s1 = renderUploadQueue ((shared w)\<lparr>uploadQueue := enqueue validFiles\<rparr>);
                  (s2, task) = next_item (length validFiles) 0 s1
              in Some (w\<lparr>shared := s2, invocations := invocations w @ [task]\<rparr>)))
      | Respond t resp \<Rightarrow>
          (case awaiting w t of
             None \<Rightarrow> None
           | Some task \<Rightarrow>
               (case phase_of task of
                  Settling i r \<Rightarrow> None
                | Awaiting i \<Rightarrow>
                    (let (r, s') = receive_response pg resp (shared w)
                     in Some (w\<lparr>shared := s',
                               invocations := (invocations w)[t := Some (task\<lparr>phase_of := Settling i r\<rparr>)]\<rparr>))))
      | Settle t \<Rightarrow>
          (case awaiting w t of
             None \<Rightarrow> None
           | Some task \<Rightarrow>
               (case phase_of task of
                  Awaiting i \<Rightarrow> None
                | Settling i r \<Rightarrow>
                    if i < length (uploadQueue (shared w)) then
                      (let (s', task') = next_item (validFiles_length task) (Suc i)
                                          (settle_item i r (shared w))
                       in Some (w\<lparr>shared := s', invocations := (invocations w)[t := task']\<rparr>))
                    else Some (w\<lparr>invocations := (invocations w)[t := None]\<rparr>))))"

text \<open>A schedule, step by step.\<close>

fun run :: "page \<Rightarrow> action list \<Rightarrow> world \<Rightarrow> world option" where
  "run pg [] w = Some w"
| "run pg (a # acts) w = (case step pg a w of None \<Rightarrow> None | Some w' \<Rightarrow> run pg acts w')"

text \<open>
  No invocation in flight, and the schedule of one invocation that runs alone: it is
  started, and each of its requests gets its outcome and is settled before anything else
  happens.
\<close>

definition idle :: "state \<Rightarrow> world" where
  "idle s = \<lparr>shared = s, invocations = []\<rparr>"


section \<open>What the statements are written in\<close>

subsection \<open>The size label, in the words of the specification\<close>

text \<open>
  \<open>tenths n d\<close> is the number of tenths nearest to \<open>n / d\<close>, the upper one of two;
  \<open>one_decimal n d\<close> prints \<open>n / d\<close> to one decimal place. \<open>size_label\<close> is the rule
  of the data model: below 1024 the bytes, below 1024 * 1024 the kilobytes to one
  decimal, megabytes to one decimal from there on.
\<close>

definition tenths :: "nat \<Rightarrow> nat \<Rightarrow> nat" where
  "tenths n d = (10 * n + d div 2) div d"

definition one_decimal :: "nat \<Rightarrow> nat \<Rightarrow> string" where
  "one_decimal n d = decimal (tenths n d div 10) @ ''.'' @ decimal (tenths n d mod 10)"

definition size_label :: "nat \<Rightarrow> string" where
  "size_label n =
     (if n < 1024 then decimal n @ '' B''
      else if n < 1024 * 1024 then one_decimal n 1024 @ '' KB''
      else one_decimal n (1024 * 1024) @ '' MB'')"

subsection \<open>The extension, in the words of the specification\<close>

text \<open>
  The substring after the final \<^verbatim>\<open>.\<close> of a name; a name without a \<^verbatim>\<open>.\<close> has no final
  one and all of it is taken. \<open>recognized\<close> is the allow-list.
\<close>

definition after_final_dot :: "string \<Rightarrow> string" where
  "after_final_dot name = rev (takeWhile (\<lambda>c. c \<noteq> CHR ''.'') (rev name))"

definition recognized :: "string list" where
  "recognized = [''pdf'', ''png'', ''jpg'', ''jpeg'', ''tiff'']"

definition spec_accepts :: "js_file \<Rightarrow> bool" where
  "spec_accepts f = (toLowerCase (after_final_dot (file_name f)) \<in> set recognized)"

subsection \<open>Outcomes and snapshots\<close>

text \<open>The module as it is loaded, lines 10-24.\<close>

definition initial_state :: state where
  "initial_state =
     \<lparr>uploadQueue = [],
      currentDocument = \<lparr>docId = JNull, doc_text = JStr [], category = JNull\<rparr>,
      trace = []\<rparr>"

text \<open>
  What the promise of \<^verbatim>\<open>handleFileUpload\<close> settles to for a given outcome of its
  request. It is read off a run from the initial state; \<open>handleFileUpload_result\<close> shows
  that neither the file nor the state the call starts from changes it.
\<close>

definition upload_outcome :: "page \<Rightarrow> fetch_result \<Rightarrow> js_error + jsval" where
  "upload_outcome pg resp =
     fst (handleFileUpload pg resp \<lparr>file_name = [], file_size = 0\<rparr> initial_state)"

definition outcome_status :: "page \<Rightarrow> fetch_result \<Rightarrow> status" where
  "outcome_status pg resp =
     (case upload_outcome pg resp of Inr _ \<Rightarrow> Done | Inl _ \<Rightarrow> Error)"

text \<open>The status the \<open>j\<close>-th item of the queue \<open>q\<close> ends with.\<close>

definition item_result ::
  "page \<Rightarrow> (nat \<Rightarrow> js_file \<Rightarrow> fetch_result) \<Rightarrow> queue_item list \<Rightarrow> nat \<Rightarrow> status" where
  "item_result pg net q j = outcome_status pg (net j (item_file (q ! j)))"

text \<open>
  The queue while item \<open>k\<close> is being processed, and the queue once the items below \<open>k\<close>
  are resolved and no other has been started.
\<close>

definition snapshot_during ::
  "page \<Rightarrow> (nat \<Rightarrow> js_file \<Rightarrow> fetch_result) \<Rightarrow> queue_item list \<Rightarrow> nat \<Rightarrow> queue_item list" where
  "snapshot_during pg net q k =
     map (\<lambda>j. (q ! j)\<lparr>item_status :=
            (if j < k then item_result pg net q j
             else if j = k then Processing else Pending)\<rparr>) [0..<length q]"

definition snapshot_after ::
  "page \<Rightarrow> (nat \<Rightarrow> js_file \<Rightarrow> fetch_result) \<Rightarrow> queue_item list \<Rightarrow> nat \<Rightarrow> queue_item list" where
  "snapshot_after pg net q k =
     map (\<lambda>j. (q ! j)\<lparr>item_status :=
            (if j < k then item_result pg net q j else Pending)\<rparr>) [0..<length q]"

text \<open>What one iteration of the loop does to the outside, in order.\<close>

definition item_events ::
  "page \<Rightarrow> (nat \<Rightarrow> js_file \<Rightarrow> fetch_result) \<Rightarrow> queue_item list \<Rightarrow> nat \<Rightarrow> event list" where
  "item_events pg net q k =
     [RenderUploadQueue (snapshot_during pg net q k),
      FetchUploadOcr (item_file (q ! k)),
      RenderUploadQueue (snapshot_after pg net q (Suc k))]"

text \<open>
  The events an invocation added to the trace, the queues it published among them,
  and the files it sent to the extraction service.
\<close>

definition emitted :: "state \<Rightarrow> state \<Rightarrow> event list" where
  "emitted s s' = drop (length (trace s)) (trace s')"

fun published :: "event list \<Rightarrow> queue_item list list" where
  "published [] = []"
| "published (RenderUploadQueue q # es) = q # published es"
| "published (e # es) = published es"

fun uploaded :: "event list \<Rightarrow> js_file list" where
  "uploaded [] = []"
| "uploaded (FetchUploadOcr f # es) = f # uploaded es"
| "uploaded (e # es) = uploaded es"

fun toasts :: "event list \<Rightarrow> (string \<times> string \<times> string) list" where
  "toasts [] = []"
| "toasts (ShowToast t title message # es) = (t, title, message) # toasts es"
| "toasts (e # es) = toasts es"

definition terminal :: "status \<Rightarrow> bool" where
  "terminal st = (st = Done \<or> st = Error)"

subsection \<open>What a schedule shows\<close>

text \<open>
  The queues published in the course of a schedule that starts with no invocation in
  flight, and the files that passed the filter in the calls the schedule makes.
\<close>

definition observed :: "page \<Rightarrow> action list \<Rightarrow> state \<Rightarrow> queue_item list list option" where
  "observed pg acts s = map_option (\<lambda>w. published (emitted s (shared w))) (run pg acts (idle s))"


subsection \<open>Terminal statuses\<close>


subsection \<open>The current document\<close>


definition doc_pair :: "state \<Rightarrow> jsval \<times> jsval" where
  "doc_pair s = (docId (currentDocument s), doc_text (currentDocument s))"

definition overwrite :: "'a option \<Rightarrow> 'a \<Rightarrow> 'a" where
  "overwrite new old = (case new of None \<Rightarrow> old | Some p \<Rightarrow> p)"


subsection \<open>A batch to run\<close>

text \<open>
  A page with both elements, a complete response body, a batch of four files of which \<^verbatim>\<open>c.txt\<close> is not recognised,
  and a service that fails the second request.
\<close>

definition full_page :: page where
  "full_page = \<lparr>textStats = True, extractedText = True\<rparr>"

definition ocr_data :: "string \<Rightarrow> string \<Rightarrow> jsval" where
  "ocr_data d t =
     JObj [(''doc_id'', JStr d), (''text'', JStr t),
           (''metadata'', JObj [(''page_count'', JNum 1), (''word_count'', JNum 2),
              (''language'', JStr ''en''), (''has_handwriting'', JBool False)]),
           (''confidence'', JObj [(''overall_confidence'', JNum 90)])]"

definition example_files :: "js_file list" where
  "example_files =
     [\<lparr>file_name = ''b.pdf'', file_size = 500\<rparr>,
      \<lparr>file_name = ''a.PNG'', file_size = 20\<rparr>,
      \<lparr>file_name = ''c.txt'', file_size = 3\<rparr>,
      \<lparr>file_name = ''d.jpg'', file_size = 7\<rparr>]"

definition second_fails :: "nat \<Rightarrow> js_file \<Rightarrow> fetch_result" where
  "second_fails i f =
     (if i = 1 then Rejected else Response True (Some (ocr_data (file_name f) ''words'')))"



text \<open>
  Two batches of three files and schedules in which the second batch is dropped while
  the second request of the first is under way.
\<close>

definition batch_a :: "js_file list" where
  "batch_a =
     [\<lparr>file_name = ''a1.pdf'', file_size = 5\<rparr>, \<lparr>file_name = ''a2.pdf'', file_size = 6\<rparr>,
      \<lparr>file_name = ''a3.pdf'', file_size = 7\<rparr>]"

definition batch_b :: "js_file list" where
  "batch_b =
     [\<lparr>file_name = ''b1.pdf'', file_size = 5\<rparr>, \<lparr>file_name = ''b2.pdf'', file_size = 6\<rparr>,
      \<lparr>file_name = ''b3.pdf'', file_size = 7\<rparr>]"

definition ok_response :: fetch_result where
  "ok_response = Response True (Some (ocr_data ''D'' ''words''))"

definition overlap :: "action list" where
  "overlap =
     [Start batch_a, Respond 0 ok_response, Settle 0,
      Start batch_b,
      Respond 0 ok_response, Settle 0,
      Respond 1 ok_response, Settle 1]"



section \<open>Lemmas\<close>

subsection \<open>Numbers\<close>

lemma round_tenths:
  assumes "0 < d"
  shows "nat \<lfloor>(of_nat n :: rat) / of_nat d * 10 + 1 / 2\<rfloor> = (20 * n + d) div (2 * d)"
proof -
  have "(of_nat n :: rat) / of_nat d * 10 + 1 / 2 = of_int (int (20 * n + d)) / of_int (int (2 * d))"
    using assms by (simp add: field_simps)
  also have "\<lfloor>\<dots>\<rfloor> = int (20 * n + d) div int (2 * d)"
    by (rule floor_divide_of_int_eq)
  also have "\<dots> = int ((20 * n + d) div (2 * d))"
    by (rule zdiv_int[symmetric])
  finally show ?thesis by (simp only: nat_int)
qed

lemma toFixed1_quotient:
  "0 < d \<Longrightarrow> toFixed1 (of_nat n / of_nat d) =
     decimal ((20 * n + d) div (2 * d) div 10) @ ''.'' @ decimal ((20 * n + d) div (2 * d) mod 10)"
  unfolding toFixed1_def Let_def by (simp only: round_tenths)

lemma tenths_1024: "(20 * n + 1024) div (2 * 1024) = tenths n 1024"
proof -
  have "(20 * n + 1024) div (2 * 1024) = (2 * (10 * n + 512)) div (2 * 1024)"
    by simp
  also have "\<dots> = (10 * n + 512) div 1024"
    by (rule div_mult_mult1) simp
  finally show ?thesis by (simp add: tenths_def)
qed

lemma tenths_1048576: "(20 * n + 1048576) div (2 * 1048576) = tenths n 1048576"
proof -
  have "(20 * n + 1048576) div (2 * 1048576) = (2 * (10 * n + 524288)) div (2 * 1048576)"
    by simp
  also have "\<dots> = (10 * n + 524288) div 1048576"
    by (rule div_mult_mult1) simp
  finally show ?thesis by (simp add: tenths_def)
qed

lemma toFixed1_kilobytes: "toFixed1 (of_nat n / 1024) = one_decimal n 1024"
  using toFixed1_quotient[of 1024 n] by (simp only: tenths_1024 one_decimal_def) simp

lemma toFixed1_megabytes: "toFixed1 (of_nat n / 1048576) = one_decimal n 1048576"
  using toFixed1_quotient[of 1048576 n] by (simp only: tenths_1048576 one_decimal_def) simp

lemma decimal_digit: "n < 10 \<Longrightarrow> decimal n = [digit_char n]"
  by (simp add: decimal.simps)

lemma decimal_step: "10 \<le> n \<Longrightarrow> decimal n = decimal (n div 10) @ [digit_char (n mod 10)]"
  by (subst decimal.simps) simp

lemma digit_char_eval:
  "digit_char 0 = CHR ''0''" "digit_char 1 = CHR ''1''" "digit_char 2 = CHR ''2''"
  "digit_char 3 = CHR ''3''" "digit_char 4 = CHR ''4''" "digit_char 5 = CHR ''5''"
  "digit_char 6 = CHR ''6''" "digit_char 7 = CHR ''7''" "digit_char 8 = CHR ''8''"
  "digit_char 9 = CHR ''9''" "digit_char (Suc 0) = CHR ''1''"
  by code_simp+

lemmas decimal_eval = decimal_digit decimal_step digit_char_eval

text \<open>The tenths are nearest: they are off by at most half a tenth.\<close>

lemma tenths_nearest:
  assumes "0 < d" "even d"
  shows "\<bar>of_nat (tenths n d) / 10 - (of_nat n :: rat) / of_nat d\<bar> \<le> 1 / 20"
proof -
  define x :: rat where "x = of_nat n / of_nat d"
  define y :: rat where "y = x * 10 + 1 / 2"
  have "(20 * n + d) div (2 * d) = (2 * (10 * n + d div 2)) div (2 * d)"
    using assms(2) by (simp add: algebra_simps)
  also have "\<dots> = tenths n d"
    unfolding tenths_def by (rule div_mult_mult1) simp
  finally have k: "nat \<lfloor>y\<rfloor> = tenths n d"
    using round_tenths[OF assms(1), of n] by (simp add: y_def x_def)
  have "0 \<le> y" by (simp add: y_def x_def)
  then have "0 \<le> \<lfloor>y\<rfloor>" by simp
  then have "(of_nat (tenths n d) :: rat) = of_int \<lfloor>y\<rfloor>"
    using k by (metis of_int_of_nat_eq of_nat_nat)
  moreover have "of_int \<lfloor>y\<rfloor> \<le> y" "y < of_int \<lfloor>y\<rfloor> + 1"
    by linarith+
  ultimately have "(of_nat (tenths n d) :: rat) \<le> x * 10 + 1 / 2"
    "x * 10 + 1 / 2 < of_nat (tenths n d) + 1"
    by (simp_all add: y_def)
  then have "\<bar>of_nat (tenths n d) / 10 - x\<bar> \<le> 1 / 20"
    by linarith
  then show ?thesis
    by (simp only: x_def)
qed

subsection \<open>The extension filter\<close>

lemma split_acc_nonempty: "split_acc sep cur s \<noteq> []"
  by (induction s arbitrary: cur) auto

lemma pop_last: "pop xs = (if xs = [] then None else Some (last xs))"
  by (cases xs rule: rev_cases) (simp_all add: pop_def)

lemma takeWhile_neq_all: "sep \<notin> set xs \<Longrightarrow> takeWhile (\<lambda>c. c \<noteq> sep) xs = xs"
  by (induction xs) auto

lemma takeWhile_neq_stop:
  "sep \<notin> set xs \<Longrightarrow> takeWhile (\<lambda>c. c \<noteq> sep) (xs @ sep # ys) = xs"
  by (induction xs) auto

lemma last_split_acc:
  "last (split_acc sep cur s) =
     (if sep \<in> set s then rev (takeWhile (\<lambda>c. c \<noteq> sep) (rev s)) else rev cur @ s)"
proof (induction s arbitrary: cur)
  case Nil
  show ?case by simp
next
  case (Cons c cs)
  show ?case
  proof (cases "c = sep")
    case True
    then show ?thesis
      using Cons.IH[of "[]"] takeWhile_neq_stop[of sep "rev cs" "[]"]
      by (auto simp: split_acc_nonempty takeWhile_append1)
  next
    case False
    then show ?thesis
      using Cons.IH[of "c # cur"] by (auto simp: takeWhile_append1)
  qed
qed

lemma pop_split: "pop (split sep s) = Some (rev (takeWhile (\<lambda>c. c \<noteq> sep) (rev s)))"
  by (simp add: split_def pop_last split_acc_nonempty last_split_acc takeWhile_neq_all)

lemma file_ext_eq: "file_ext name = Some (''.'' @ toLowerCase (after_final_dot name))"
  by (simp add: file_ext_def pop_split after_final_dot_def)

lemma is_valid_iff: "is_valid f = spec_accepts f"
  by (auto simp: is_valid_def file_ext_eq spec_accepts_def validTypes_def recognized_def)

lemma after_final_dot_dotless: "CHR ''.'' \<notin> set name \<Longrightarrow> after_final_dot name = name"
  by (simp add: after_final_dot_def takeWhile_neq_all)

lemma after_final_dot_suffix:
  "CHR ''.'' \<notin> set e \<Longrightarrow> after_final_dot (stem @ ''.'' @ e) = e"
  using takeWhile_neq_stop[of "CHR ''.''" "rev e" "rev stem"] by (simp add: after_final_dot_def)

subsection \<open>One upload\<close>

lemma displayOCRResults_frame:
  "displayOCRResults ts data s = (r, s') \<Longrightarrow>
     uploadQueue s' = uploadQueue s \<and> trace s' = trace s \<and>
     docId (currentDocument s') = docId (currentDocument s) \<and>
     doc_text (currentDocument s') = doc_text (currentDocument s)"
  by (auto simp: displayOCRResults_def show_textStats_def Let_def
        split: sum.splits if_splits prod.splits)

lemma displayOCRResults_result:
  "displayOCRResults ts data s = (r, s') \<Longrightarrow> fst (displayOCRResults ts data initial_state) = r"
  by (auto simp: displayOCRResults_def show_textStats_def Let_def
        split: sum.splits if_splits prod.splits)

lemma handleFileUpload_frame:
  "handleFileUpload ts resp f s = (r, s') \<Longrightarrow>
     uploadQueue s' = uploadQueue s \<and> trace s' = trace s @ [FetchUploadOcr f]"
  unfolding handleFileUpload_def receive_response_def issue_request_def Let_def
  by (auto split: fetch_result.splits option.splits sum.splits prod.splits if_splits
       dest!: displayOCRResults_frame)

lemma handleFileUpload_result:
  "handleFileUpload ts resp f s = (r, s') \<Longrightarrow> r = upload_outcome ts resp"
  unfolding handleFileUpload_def receive_response_def issue_request_def upload_outcome_def Let_def
  by (auto split: fetch_result.splits option.splits sum.splits prod.splits if_splits
       dest!: displayOCRResults_result)

subsection \<open>The loop\<close>

lemma length_snapshot [simp]:
  "length (snapshot_after ts net q k) = length q"
  "length (snapshot_during ts net q k) = length q"
  by (simp_all add: snapshot_after_def snapshot_during_def)

lemma snapshot_after_processing:
  "i < length q \<Longrightarrow>
     (snapshot_after ts net q i)[i := (snapshot_after ts net q i ! i)\<lparr>item_status := Processing\<rparr>]
       = snapshot_during ts net q i"
  by (rule nth_equalityI) (simp_all add: snapshot_after_def snapshot_during_def nth_list_update)

lemma snapshot_during_resolved:
  "i < length q \<Longrightarrow>
     (snapshot_during ts net q i)[i := (snapshot_during ts net q i ! i)\<lparr>item_status := item_result ts net q i\<rparr>]
       = snapshot_after ts net q (Suc i)"
  by (rule nth_equalityI)
     (auto simp: snapshot_after_def snapshot_during_def nth_list_update less_Suc_eq)

lemma snapshot_during_file:
  "i < length q \<Longrightarrow> item_file (snapshot_during ts net q i ! i) = item_file (q ! i)"
  by (simp add: snapshot_during_def)

lemma loop_body_effect:
  assumes "uploadQueue s = snapshot_after ts net q i" "i < length q"
  shows "uploadQueue (loop_body ts net i s) = snapshot_after ts net q (Suc i)"
    and "trace (loop_body ts net i s) = trace s @ item_events ts net q i"
proof -
  let ?s1 = "renderUploadQueue (set_status i Processing s)"
  have q1: "uploadQueue ?s1 = snapshot_during ts net q i"
    by (simp add: renderUploadQueue_def set_status_def assms(1) snapshot_after_processing[OF assms(2)])
  have t1: "trace ?s1 = trace s @ [RenderUploadQueue (snapshot_during ts net q i)]"
    by (simp add: renderUploadQueue_def set_status_def assms(1) snapshot_after_processing[OF assms(2)])
  let ?f = "item_file (q ! i)"
  obtain r s2 where h: "handleFileUpload ts (net i ?f) ?f ?s1 = (r, s2)"
    by (cases "handleFileUpload ts (net i ?f) ?f ?s1")
  have r: "r = upload_outcome ts (net i ?f)"
    using h by (rule handleFileUpload_result)
  have q2: "uploadQueue s2 = snapshot_during ts net q i"
    and t2: "trace s2 = trace ?s1 @ [FetchUploadOcr ?f]"
    using handleFileUpload_frame[OF h] q1 by simp_all
  have t3: "trace s2 = trace s @ [RenderUploadQueue (snapshot_during ts net q i), FetchUploadOcr ?f]"
    by (simp add: t2 t1)
  have body: "loop_body ts net i s =
      renderUploadQueue (set_status i (item_result ts net q i) s2)"
    using h r assms(2)
    by (simp add: loop_body_def Let_def q1 snapshot_during_file item_result_def outcome_status_def
          split: sum.splits)
  show "uploadQueue (loop_body ts net i s) = snapshot_after ts net q (Suc i)"
    by (simp add: body renderUploadQueue_def set_status_def q2 snapshot_during_resolved[OF assms(2)])
  show "trace (loop_body ts net i s) = trace s @ item_events ts net q i"
    by (simp add: body renderUploadQueue_def set_status_def q2 t3
          snapshot_during_resolved[OF assms(2)] item_events_def)
qed

lemma process_from_effect:
  assumes "uploadQueue s = snapshot_after ts net q i" "i \<le> length q"
  shows "uploadQueue (process_from ts net i s) = snapshot_after ts net q (length q) \<and>
         trace (process_from ts net i s) = trace s @ concat (map (item_events ts net q) [i..<length q])"
  using assms
proof (induction "length q - i" arbitrary: i s)
  case 0
  then show ?case by (simp add: process_from.simps)
next
  case (Suc d)
  then have lt: "i < length q" by simp
  have q': "uploadQueue (loop_body ts net i s) = snapshot_after ts net q (Suc i)"
    and t': "trace (loop_body ts net i s) = trace s @ item_events ts net q i"
    using loop_body_effect[OF Suc.prems(1) lt] by simp_all
  have "d = length q - Suc i" using Suc.hyps(2) by simp
  from Suc.hyps(1)[OF this q'] lt
  have ih: "uploadQueue (process_from ts net (Suc i) (loop_body ts net i s)) = snapshot_after ts net q (length q)"
           "trace (process_from ts net (Suc i) (loop_body ts net i s)) =
              trace (loop_body ts net i s) @ concat (map (item_events ts net q) [Suc i..<length q])"
    by simp_all
  have unfold: "process_from ts net i s = process_from ts net (Suc i) (loop_body ts net i s)"
    using lt Suc.prems(1) by (subst process_from.simps) simp
  show ?case
    using lt by (simp add: unfold ih t' upt_conv_Cons)
qed

subsection \<open>The batch\<close>

lemma length_enqueue [simp]: "length (enqueue vs) = length vs"
  by (simp add: enqueue_def)

lemma nth_enqueue:
  "i < length vs \<Longrightarrow>
     enqueue vs ! i =
       \<lparr>item_id = i, item_file = vs ! i, item_name = file_name (vs ! i),
        item_size = formatFileSize (file_size (vs ! i)), item_status = Pending\<rparr>"
  by (simp add: enqueue_def nth_enumerate_eq)

lemma snapshot_after_0: "snapshot_after ts net (enqueue vs) 0 = enqueue vs"
  by (rule nth_equalityI) (simp_all add: snapshot_after_def nth_enqueue)

lemma handleMultipleFiles_invalid:
  "filter is_valid files = [] \<Longrightarrow>
     handleMultipleFiles ts net files s =
       showToast ''error'' ''Invalid Files'' ''Only .pdf, .png, .jpg, .jpeg, .tiff are supported'' s"
  by (simp add: handleMultipleFiles_def validTypes_def)

lemma handleMultipleFiles_valid:
  assumes "filter is_valid files \<noteq> []"
  defines "q \<equiv> enqueue (filter is_valid files)"
  shows "uploadQueue (handleMultipleFiles ts net files s) = snapshot_after ts net q (length q)"
    and "trace (handleMultipleFiles ts net files s) =
           trace s @ RenderUploadQueue q # concat (map (item_events ts net q) [0..<length q])
             @ [ShowToast ''success'' ''Upload Complete''
                  (''Processed '' @ decimal (length q) @ '' file(s)'')]"
proof -
  let ?s1 = "renderUploadQueue (s\<lparr>uploadQueue := q\<rparr>)"
  have q1: "uploadQueue ?s1 = snapshot_after ts net q 0"
    by (simp add: renderUploadQueue_def q_def snapshot_after_0)
  have t1: "trace ?s1 = trace s @ [RenderUploadQueue q]"
    by (simp add: renderUploadQueue_def)
  note loop = process_from_effect[OF q1, simplified]
  have unfold: "handleMultipleFiles ts net files s =
      showToast ''success'' ''Upload Complete'' (''Processed '' @ decimal (length q) @ '' file(s)'')
        (process_from ts net 0 ?s1)"
    using assms(1) by (simp add: handleMultipleFiles_def Let_def q_def)
  show "uploadQueue (handleMultipleFiles ts net files s) = snapshot_after ts net q (length q)"
    by (simp add: unfold showToast_def loop)
  show "trace (handleMultipleFiles ts net files s) =
           trace s @ RenderUploadQueue q # concat (map (item_events ts net q) [0..<length q])
             @ [ShowToast ''success'' ''Upload Complete''
                  (''Processed '' @ decimal (length q) @ '' file(s)'')]"
    by (simp add: unfold showToast_def loop t1)
qed

lemma emitted_append: "trace s' = trace s @ es \<Longrightarrow> emitted s s' = es"
  by (simp add: emitted_def)

lemma published_append [simp]: "published (xs @ ys) = published xs @ published ys"
  by (induction xs rule: published.induct) simp_all

lemma uploaded_append [simp]: "uploaded (xs @ ys) = uploaded xs @ uploaded ys"
  by (induction xs rule: uploaded.induct) simp_all

lemma toasts_append [simp]: "toasts (xs @ ys) = toasts xs @ toasts ys"
  by (induction xs rule: toasts.induct) simp_all

lemma published_item_events:
  "published (concat (map (item_events ts net q) ks)) =
     concat (map (\<lambda>k. [snapshot_during ts net q k, snapshot_after ts net q (Suc k)]) ks)"
  by (induction ks) (simp_all add: item_events_def)

lemma uploaded_item_events:
  "uploaded (concat (map (item_events ts net q) ks)) = map (\<lambda>k. item_file (q ! k)) ks"
  by (induction ks) (simp_all add: item_events_def)


lemma map_item_file_enqueue: "map (\<lambda>k. item_file (enqueue vs ! k)) [0..<length vs] = vs"
  by (rule nth_equalityI) (simp_all add: nth_enqueue)

lemma outcome_status_terminal: "terminal (outcome_status ts resp)"
  by (simp add: outcome_status_def terminal_def split: sum.splits)

lemma item_result_terminal: "terminal (item_result ts net q j)"
  by (simp add: item_result_def outcome_status_terminal)

lemma item_result_not_processing [simp]:
  "item_result ts net q j \<noteq> Processing" "item_result ts net q j \<noteq> Pending"
  using item_result_terminal[of ts net q j] by (auto simp: terminal_def)

lemma handleMultipleFiles_emitted:
  assumes "filter is_valid files \<noteq> []"
  shows "emitted s (handleMultipleFiles ts net files s) =
           RenderUploadQueue (enqueue (filter is_valid files))
             # concat (map (item_events ts net (enqueue (filter is_valid files)))
                        [0..<length (filter is_valid files)])
             @ [ShowToast ''success'' ''Upload Complete''
                  (''Processed '' @ decimal (length (filter is_valid files)) @ '' file(s)'')]"
  using handleMultipleFiles_valid(2)[OF assms, of ts net s]
  by (intro emitted_append) simp

lemma handleMultipleFiles_emitted_invalid:
  "filter is_valid files = [] \<Longrightarrow>
     emitted s (handleMultipleFiles ts net files s) =
       [ShowToast ''error'' ''Invalid Files'' ''Only .pdf, .png, .jpg, .jpeg, .tiff are supported'']"
  by (simp add: handleMultipleFiles_invalid showToast_def emitted_def)

lemma handleMultipleFiles_published:
  assumes "filter is_valid files \<noteq> []"
  shows "published (emitted s (handleMultipleFiles ts net files s)) =
           enqueue (filter is_valid files)
             # concat (map (\<lambda>k. [snapshot_during ts net (enqueue (filter is_valid files)) k,
                                  snapshot_after ts net (enqueue (filter is_valid files)) (Suc k)])
                        [0..<length (filter is_valid files)])"
  by (simp add: handleMultipleFiles_emitted[OF assms] published_item_events)

lemma handleMultipleFiles_uploaded:
  assumes "filter is_valid files \<noteq> []"
  shows "uploaded (emitted s (handleMultipleFiles ts net files s)) = filter is_valid files"
  by (simp add: handleMultipleFiles_emitted[OF assms] uploaded_item_events map_item_file_enqueue)



lemma final_files:
  "map item_file (snapshot_after ts net (enqueue vs) (length vs)) = vs"
  by (rule nth_equalityI) (simp_all add: snapshot_after_def nth_enqueue)

lemma final_ids:
  "map item_id (snapshot_after ts net (enqueue vs) (length vs)) = [0..<length vs]"
  by (rule nth_equalityI) (simp_all add: snapshot_after_def nth_enqueue)

subsection \<open>Counting\<close>






lemma not_terminal [simp]: "\<not> terminal Pending" "\<not> terminal Processing"
  by (simp_all add: terminal_def)









lemma toLowerCase_recognized: "name \<in> set recognized \<Longrightarrow> toLowerCase name = name"
  by (auto simp: recognized_def toLowerCase_def toLowerCase_char_def)

subsection \<open>The current document\<close>


lemma overwrite_simps [simp]: "overwrite None old = old" "overwrite (Some p) old = p"
  by (simp_all add: overwrite_def)




lemma set_status_doc [simp]: "doc_pair (set_status i st s) = doc_pair s"
  by (simp add: set_status_def doc_pair_def)

lemma renderUploadQueue_doc [simp]: "doc_pair (renderUploadQueue s) = doc_pair s"
  by (simp add: renderUploadQueue_def doc_pair_def)









subsection \<open>The example batch\<close>

lemma example_valid:
  "filter is_valid example_files =
     [\<lparr>file_name = ''b.pdf'', file_size = 500\<rparr>,
      \<lparr>file_name = ''a.PNG'', file_size = 20\<rparr>,
      \<lparr>file_name = ''d.jpg'', file_size = 7\<rparr>]"
  by code_simp



subsection \<open>An invocation that runs alone\<close>











subsection \<open>Schedules that overlap\<close>

lemma overlap_observed:
  "map_option (map (\<lambda>q. (map item_name q, map item_status q)))
     (observed full_page overlap initial_state) =
   Some [([''a1.pdf'', ''a2.pdf'', ''a3.pdf''], [Pending, Pending, Pending]),
         ([''a1.pdf'', ''a2.pdf'', ''a3.pdf''], [Processing, Pending, Pending]),
         ([''a1.pdf'', ''a2.pdf'', ''a3.pdf''], [Done, Pending, Pending]),
         ([''a1.pdf'', ''a2.pdf'', ''a3.pdf''], [Done, Processing, Pending]),
         ([''b1.pdf'', ''b2.pdf'', ''b3.pdf''], [Pending, Pending, Pending]),
         ([''b1.pdf'', ''b2.pdf'', ''b3.pdf''], [Processing, Pending, Pending]),
         ([''b1.pdf'', ''b2.pdf'', ''b3.pdf''], [Processing, Done, Pending]),
         ([''b1.pdf'', ''b2.pdf'', ''b3.pdf''], [Processing, Done, Processing]),
         ([''b1.pdf'', ''b2.pdf'', ''b3.pdf''], [Done, Done, Processing]),
         ([''b1.pdf'', ''b2.pdf'', ''b3.pdf''], [Done, Processing, Processing])]"
  by code_simp

lemma overlap_uploaded:
  "map_option (\<lambda>w. map file_name (uploaded (trace (shared w))))
     (run full_page overlap (idle initial_state)) =
   Some [''a1.pdf'', ''a2.pdf'', ''b1.pdf'', ''b3.pdf'', ''b2.pdf'']"
  by code_simp







section \<open>The claims\<close>

text \<open>
  C1. The files that are enqueued are exactly the inputs whose extension, lower-cased,
  is on the allow-list, in their original order. The extension is what follows the
  final \<^verbatim>\<open>.\<close> of the name (\<open>after_final_dot\<close>, all of a name that has no \<^verbatim>\<open>.\<close>): the
  filter of the code is the filter by \<open>spec_accepts\<close>. When it keeps a file, the queue
  that is published first, the queue at the end and the files sent to the extraction
  service are those files; when it keeps none, nothing is published, nothing is sent and
  \<^verbatim>\<open>uploadQueue\<close> is left as it was.
\<close>

theorem filter_correct:
  "filter is_valid files = filter spec_accepts files
   \<and> (\<forall>stem e. CHR ''.'' \<notin> set e \<longrightarrow> after_final_dot (stem @ ''.'' @ e) = e)
   \<and> (let s' = handleMultipleFiles ts net files s in
        (filter spec_accepts files \<noteq> [] \<longrightarrow>
           (\<exists>rest. published (emitted s s') = enqueue (filter spec_accepts files) # rest)
           \<and> map item_file (enqueue (filter spec_accepts files)) = filter spec_accepts files
           \<and> map item_file (uploadQueue s') = filter spec_accepts files
           \<and> uploaded (emitted s s') = filter spec_accepts files)
        \<and> (filter spec_accepts files = [] \<longrightarrow>
             published (emitted s s') = [] \<and> uploaded (emitted s s') = []
             \<and> uploadQueue s' = uploadQueue s))"
proof -
  define s' where "s' = handleMultipleFiles ts net files s"
  have eq: "filter is_valid files = filter spec_accepts files"
    by (rule filter_cong) (simp_all add: is_valid_iff)
  have suffix: "\<forall>stem e. CHR ''.'' \<notin> set e \<longrightarrow> after_final_dot (stem @ ''.'' @ e) = e"
    using after_final_dot_suffix by blast
  have files: "map item_file (enqueue vs) = vs" for vs
    by (rule nth_equalityI) (simp_all add: nth_enqueue)
  have valid: "(\<exists>rest. published (emitted s s') = enqueue (filter spec_accepts files) # rest)
           \<and> map item_file (enqueue (filter spec_accepts files)) = filter spec_accepts files
           \<and> map item_file (uploadQueue s') = filter spec_accepts files
           \<and> uploaded (emitted s s') = filter spec_accepts files"
    if "filter spec_accepts files \<noteq> []"
  proof -
    have ne: "filter is_valid files \<noteq> []" using that eq by simp
    show ?thesis
      unfolding s'_def eq[symmetric]
      by (simp add: handleMultipleFiles_published[OF ne] handleMultipleFiles_uploaded[OF ne]
            handleMultipleFiles_valid(1)[OF ne] final_files files)
  qed
  have invalid: "published (emitted s s') = [] \<and> uploaded (emitted s s') = []
             \<and> uploadQueue s' = uploadQueue s"
    if "filter spec_accepts files = []"
  proof -
    have e: "filter is_valid files = []" using that eq by simp
    have "uploadQueue s' = uploadQueue s"
      unfolding s'_def by (simp add: handleMultipleFiles_invalid[OF e] showToast_def)
    then show ?thesis
      unfolding s'_def by (simp add: handleMultipleFiles_emitted_invalid[OF e])
  qed
  show ?thesis
    unfolding Let_def s'_def[symmetric] using eq suffix valid invalid by blast
qed

theorem filter_correct_witness:
  "map file_name (filter spec_accepts example_files) = [''b.pdf'', ''a.PNG'', ''d.jpg'']
   \<and> map file_name (uploaded (emitted initial_state
         (handleMultipleFiles full_page second_fails example_files initial_state)))
       = [''b.pdf'', ''a.PNG'', ''d.jpg'']"
proof -
  note t = filter_correct[where files=example_files and ts=full_page and net=second_fails and s=initial_state]
  from t have "filter is_valid example_files = filter spec_accepts example_files"
    by (rule conjunct1)
  then have a: "filter spec_accepts example_files =
     [\<lparr>file_name = ''b.pdf'', file_size = 500\<rparr>,
      \<lparr>file_name = ''a.PNG'', file_size = 20\<rparr>,
      \<lparr>file_name = ''d.jpg'', file_size = 7\<rparr>]"
    by (simp add: example_valid)
  from t show ?thesis
    by (simp add: a Let_def)
qed










text \<open>
  C5. When the filter keeps a file, the first queue published is built from the kept
  files in their order: the item at position \<open>i\<close> has id \<open>i\<close>, the \<open>i\<close>-th kept file,
  its name, its size label and the status \<^verbatim>\<open>pending\<close>. It does not depend on the queue
  that was there before, and the queue at the end has the same files and ids. The files
  \<^verbatim>\<open>b.pdf, a.png, c.txt, d.jpg\<close> give the queue \<^verbatim>\<open>b.pdf, a.png, d.jpg\<close> with ids 0, 1, 2.
\<close>

theorem enqueue_published:
  assumes "filter is_valid files \<noteq> []"
  shows
    "(let vs = filter is_valid files; s' = handleMultipleFiles ts net files s in
      (\<exists>rest. published (emitted s s') = enqueue vs # rest)
      \<and> length (enqueue vs) = length vs
      \<and> (\<forall>i<length vs.
            enqueue vs ! i =
              \<lparr>item_id = i, item_file = vs ! i, item_name = file_name (vs ! i),
               item_size = formatFileSize (file_size (vs ! i)), item_status = Pending\<rparr>)
      \<and> map item_file (uploadQueue s') = vs
      \<and> map item_id (uploadQueue s') = [0..<length vs])
     \<and> map item_name (enqueue (filter is_valid
           [\<lparr>file_name = ''b.pdf'', file_size = n1\<rparr>, \<lparr>file_name = ''a.png'', file_size = n2\<rparr>,
            \<lparr>file_name = ''c.txt'', file_size = n3\<rparr>, \<lparr>file_name = ''d.jpg'', file_size = n4\<rparr>]))
         = [''b.pdf'', ''a.png'', ''d.jpg'']
     \<and> map item_id (enqueue (filter is_valid
           [\<lparr>file_name = ''b.pdf'', file_size = n1\<rparr>, \<lparr>file_name = ''a.png'', file_size = n2\<rparr>,
            \<lparr>file_name = ''c.txt'', file_size = n3\<rparr>, \<lparr>file_name = ''d.jpg'', file_size = n4\<rparr>]))
         = [0, 1, 2]"
proof -
  define vs where "vs = filter is_valid files"
  define s' where "s' = handleMultipleFiles ts net files s"
  have pub: "\<exists>rest. published (emitted s s') = enqueue vs # rest"
    unfolding s'_def vs_def handleMultipleFiles_published[OF assms] by simp
  have nth: "\<forall>i<length vs.
            enqueue vs ! i =
              \<lparr>item_id = i, item_file = vs ! i, item_name = file_name (vs ! i),
               item_size = formatFileSize (file_size (vs ! i)), item_status = Pending\<rparr>"
    by (simp add: nth_enqueue)
  have fin: "map item_file (uploadQueue s') = vs" "map item_id (uploadQueue s') = [0..<length vs]"
    unfolding s'_def vs_def handleMultipleFiles_valid(1)[OF assms]
    by (simp_all add: final_files final_ids)
  have v: "is_valid \<lparr>file_name = ''b.pdf'', file_size = n1\<rparr>"
      "is_valid \<lparr>file_name = ''a.png'', file_size = n2\<rparr>"
      "\<not> is_valid \<lparr>file_name = ''c.txt'', file_size = n3\<rparr>"
      "is_valid \<lparr>file_name = ''d.jpg'', file_size = n4\<rparr>"
    by (simp_all add: is_valid_iff spec_accepts_def after_final_dot_def recognized_def
          toLowerCase_def toLowerCase_char_def)
  have ex: "map item_name (enqueue (filter is_valid
           [\<lparr>file_name = ''b.pdf'', file_size = n1\<rparr>, \<lparr>file_name = ''a.png'', file_size = n2\<rparr>,
            \<lparr>file_name = ''c.txt'', file_size = n3\<rparr>, \<lparr>file_name = ''d.jpg'', file_size = n4\<rparr>]))
         = [''b.pdf'', ''a.png'', ''d.jpg'']"
    "map item_id (enqueue (filter is_valid
           [\<lparr>file_name = ''b.pdf'', file_size = n1\<rparr>, \<lparr>file_name = ''a.png'', file_size = n2\<rparr>,
            \<lparr>file_name = ''c.txt'', file_size = n3\<rparr>, \<lparr>file_name = ''d.jpg'', file_size = n4\<rparr>]))
         = [0, 1, 2]"
    by (simp_all add: v enqueue_def enumerate_simps)
  show ?thesis
    unfolding Let_def vs_def[symmetric] s'_def[symmetric]
    using pub nth fin ex by (simp only: length_enqueue)
qed

theorem enqueue_published_witness:
  "map item_name (hd (published (emitted initial_state
      (handleMultipleFiles full_page second_fails example_files initial_state))))
     = [''b.pdf'', ''a.PNG'', ''d.jpg'']
   \<and> map item_id (uploadQueue (handleMultipleFiles full_page second_fails example_files initial_state))
     = [0, 1, 2]"
proof -
  have ne: "filter is_valid example_files \<noteq> []"
    by (simp add: example_valid)
  have n: "map item_name (enqueue (filter is_valid example_files)) = [''b.pdf'', ''a.PNG'', ''d.jpg'']"
    by code_simp
  have u: "[0..<length (filter is_valid example_files)] = [0, 1, 2]"
    by (simp add: example_valid upt_rec)
  note t = enqueue_published[OF ne, where s=initial_state and ts=full_page and net=second_fails,
      unfolded Let_def]
  from t obtain rest where "published (emitted initial_state
      (handleMultipleFiles full_page second_fails example_files initial_state))
      = enqueue (filter is_valid example_files) # rest"
    by blast
  then have h: "hd (published (emitted initial_state
      (handleMultipleFiles full_page second_fails example_files initial_state)))
      = enqueue (filter is_valid example_files)"
    by simp
  from t have i: "map item_id (uploadQueue (handleMultipleFiles full_page second_fails example_files initial_state))
     = [0..<length (filter is_valid example_files)]"
    by blast
  show ?thesis
    by (simp only: h n i u)
qed

text \<open>
  C6. When the filter keeps no file (the empty batch included), the invocation shows
  one error toast and does nothing else: \<^verbatim>\<open>uploadQueue\<close> and \<^verbatim>\<open>currentDocument\<close> are as
  before, no queue is published and nothing is sent to the extraction service. The
  toast is the form the validation error takes in the code; the function returns
  normally.
\<close>

theorem empty_batch_rejected:
  assumes "filter is_valid files = []"
  shows
    "(let s' = handleMultipleFiles ts net files s in
      s' = s\<lparr>trace := trace s @
             [ShowToast ''error'' ''Invalid Files''
                ''Only .pdf, .png, .jpg, .jpeg, .tiff are supported'']\<rparr>
      \<and> uploadQueue s' = uploadQueue s
      \<and> currentDocument s' = currentDocument s
      \<and> published (emitted s s') = []
      \<and> uploaded (emitted s s') = []
      \<and> toasts (emitted s s') =
          [(''error'', ''Invalid Files'', ''Only .pdf, .png, .jpg, .jpeg, .tiff are supported'')])"
  by (simp add: Let_def handleMultipleFiles_invalid[OF assms] showToast_def emitted_def)

theorem empty_batch_rejected_witness:
  "uploadQueue (handleMultipleFiles full_page second_fails [] initial_state) = uploadQueue initial_state
   \<and> toasts (emitted initial_state (handleMultipleFiles full_page second_fails [] initial_state)) =
       [(''error'', ''Invalid Files'', ''Only .pdf, .png, .jpg, .jpeg, .tiff are supported'')]
   \<and> published (emitted initial_state (handleMultipleFiles full_page second_fails
        [\<lparr>file_name = ''c.txt'', file_size = 3\<rparr>, \<lparr>file_name = ''notes'', file_size = 4\<rparr>]
        initial_state)) = []
   \<and> uploaded (emitted initial_state (handleMultipleFiles full_page second_fails
        [\<lparr>file_name = ''c.txt'', file_size = 3\<rparr>, \<lparr>file_name = ''notes'', file_size = 4\<rparr>]
        initial_state)) = []"
proof -
  have a: "filter is_valid [] = []" by simp
  have b: "filter is_valid
      [\<lparr>file_name = ''c.txt'', file_size = 3\<rparr>, \<lparr>file_name = ''notes'', file_size = 4\<rparr>] = []"
    by code_simp
  show ?thesis
    using empty_batch_rejected[OF a, where s=initial_state and ts=full_page and net=second_fails,
        unfolded Let_def]
      empty_batch_rejected[OF b, where s=initial_state and ts=full_page and net=second_fails,
        unfolded Let_def]
    by blast
qed

text \<open>
  C7. When the filter keeps a file, what the invocation does to the outside is, in
  order: the queue as enqueued is published; then for each item in turn the queue with
  that item \<^verbatim>\<open>processing\<close> is published, the request for its file is made, and the
  queue with the item resolved (\<^verbatim>\<open>done\<close> or \<^verbatim>\<open>error\<close>) is published; the toast comes
  last.
\<close>

theorem publish_around_each_upload:
  assumes "filter is_valid files \<noteq> []"
  shows
    "(let q = enqueue (filter is_valid files) in
      emitted s (handleMultipleFiles ts net files s) =
        RenderUploadQueue q
          # concat (map (\<lambda>k. [RenderUploadQueue (snapshot_during ts net q k),
                               FetchUploadOcr (item_file (q ! k)),
                               RenderUploadQueue (snapshot_after ts net q (Suc k))])
                     [0..<length q])
          @ [ShowToast ''success'' ''Upload Complete''
               (''Processed '' @ decimal (length q) @ '' file(s)'')]
      \<and> (\<forall>k<length q.
            item_status (snapshot_during ts net q k ! k) = Processing
            \<and> item_status (snapshot_after ts net q (Suc k) ! k) = item_result ts net q k
            \<and> terminal (item_result ts net q k)))"
proof -
  define q where "q = enqueue (filter is_valid files)"
  have len: "length q = length (filter is_valid files)"
    by (simp add: q_def)
  have ev: "item_events ts net q =
      (\<lambda>k. [RenderUploadQueue (snapshot_during ts net q k), FetchUploadOcr (item_file (q ! k)),
            RenderUploadQueue (snapshot_after ts net q (Suc k))])"
    by (rule ext) (simp add: item_events_def)
  have tr: "emitted s (handleMultipleFiles ts net files s) =
        RenderUploadQueue q
          # concat (map (\<lambda>k. [RenderUploadQueue (snapshot_during ts net q k),
                               FetchUploadOcr (item_file (q ! k)),
                               RenderUploadQueue (snapshot_after ts net q (Suc k))])
                     [0..<length q])
          @ [ShowToast ''success'' ''Upload Complete''
               (''Processed '' @ decimal (length q) @ '' file(s)'')]"
    using handleMultipleFiles_emitted[OF assms, of s ts net]
    by (simp only: q_def[symmetric] len[symmetric] ev)
  have st: "item_status (snapshot_during ts net q k ! k) = Processing
            \<and> item_status (snapshot_after ts net q (Suc k) ! k) = item_result ts net q k
            \<and> terminal (item_result ts net q k)" if "k < length q" for k
    using that by (simp add: snapshot_during_def snapshot_after_def item_result_terminal)
  show ?thesis
    unfolding Let_def q_def[symmetric] using tr st by blast
qed

theorem publish_around_each_upload_witness:
  "map (\<lambda>e. case e of
          RenderUploadQueue q \<Rightarrow> (''render'', map item_status q)
        | FetchUploadOcr f \<Rightarrow> (file_name f, [])
        | ShowToast t title message \<Rightarrow> (message, []))
     (emitted initial_state (handleMultipleFiles full_page second_fails example_files initial_state))
   = [(''render'', [Pending, Pending, Pending]),
      (''render'', [Processing, Pending, Pending]), (''b.pdf'', []),
      (''render'', [Done, Pending, Pending]),
      (''render'', [Done, Processing, Pending]), (''a.PNG'', []),
      (''render'', [Done, Error, Pending]),
      (''render'', [Done, Error, Processing]), (''d.jpg'', []),
      (''render'', [Done, Error, Done]),
      (''Processed 3 file(s)'', [])]"
proof -
  have ne: "filter is_valid example_files \<noteq> []"
    by (simp add: example_valid)
  let ?q = "enqueue (filter is_valid example_files)"
  let ?rhs = "RenderUploadQueue ?q
          # concat (map (\<lambda>k. [RenderUploadQueue (snapshot_during full_page second_fails ?q k),
                               FetchUploadOcr (item_file (?q ! k)),
                               RenderUploadQueue (snapshot_after full_page second_fails ?q (Suc k))])
                     [0..<length ?q])
          @ [ShowToast ''success'' ''Upload Complete''
               (''Processed '' @ decimal (length ?q) @ '' file(s)'')]"
  have e: "emitted initial_state (handleMultipleFiles full_page second_fails example_files initial_state) = ?rhs"
    using publish_around_each_upload[OF ne, where s=initial_state and ts=full_page and net=second_fails]
    unfolding Let_def by (rule conjunct1)
  have r: "map (\<lambda>e. case e of
          RenderUploadQueue q \<Rightarrow> (''render'', map item_status q)
        | FetchUploadOcr f \<Rightarrow> (file_name f, [])
        | ShowToast t title message \<Rightarrow> (message, [])) ?rhs
   = [(''render'', [Pending, Pending, Pending]),
      (''render'', [Processing, Pending, Pending]), (''b.pdf'', []),
      (''render'', [Done, Pending, Pending]),
      (''render'', [Done, Processing, Pending]), (''a.PNG'', []),
      (''render'', [Done, Error, Pending]),
      (''render'', [Done, Error, Processing]), (''d.jpg'', []),
      (''render'', [Done, Error, Done]),
      (''Processed 3 file(s)'', [])]"
    by code_simp
  show ?thesis
    unfolding e by (rule r)
qed

text \<open>
  C8. For every byte count, \<^verbatim>\<open>formatFileSize\<close> gives the label of the data model:
  below 1024 the number of bytes, below 1024 * 1024 the kilobytes to one decimal place,
  the megabytes to one decimal place otherwise, where one decimal place means the
  nearest number of tenths (off by at most a twentieth). 500 gives \<^verbatim>\<open>500 B\<close>, 2048
  gives \<^verbatim>\<open>2.0 KB\<close> and 5242880 gives \<^verbatim>\<open>5.0 MB\<close>.
\<close>

theorem formatFileSize_size_label:
  "formatFileSize bytes = size_label bytes
   \<and> \<bar>of_nat (tenths bytes 1024) / 10 - (of_nat bytes :: rat) / 1024\<bar> \<le> 1 / 20
   \<and> \<bar>of_nat (tenths bytes (1024 * 1024)) / 10 - (of_nat bytes :: rat) / (1024 * 1024)\<bar> \<le> 1 / 20
   \<and> formatFileSize 500 = ''500 B''
   \<and> formatFileSize 2048 = ''2.0 KB''
   \<and> formatFileSize 5242880 = ''5.0 MB''"
proof -
  have eq: "formatFileSize n = size_label n" for n
    by (simp add: formatFileSize_def size_label_def toFixed1_kilobytes toFixed1_megabytes)
  have kb: "\<bar>of_nat (tenths bytes 1024) / 10 - (of_nat bytes :: rat) / 1024\<bar> \<le> 1 / 20"
    using tenths_nearest[of 1024 bytes] by simp
  have mb: "\<bar>of_nat (tenths bytes (1024 * 1024)) / 10 - (of_nat bytes :: rat) / (1024 * 1024)\<bar> \<le> 1 / 20"
    using tenths_nearest[of "1024 * 1024" bytes] by simp
  have e1: "size_label 500 = ''500 B''"
    by (simp add: size_label_def decimal_eval)
  have e2: "size_label 2048 = ''2.0 KB''"
    by (simp add: size_label_def one_decimal_def tenths_def decimal_eval)
  have e3: "size_label 5242880 = ''5.0 MB''"
    by (simp add: size_label_def one_decimal_def tenths_def decimal_eval)
  show ?thesis
    using kb mb by (simp add: eq e1 e2 e3)
qed

theorem formatFileSize_size_label_witness:
  "formatFileSize 1536 = ''1.5 KB'' \<and> formatFileSize 1023 = ''1023 B''
   \<and> formatFileSize 1048576 = ''1.0 MB''"
  using formatFileSize_size_label[of 1536] formatFileSize_size_label[of 1023]
    formatFileSize_size_label[of 1048576]
  by (simp add: size_label_def one_decimal_def tenths_def decimal_eval)

text \<open>
  C9 as stated fails: a file named \<^verbatim>\<open>PDF\<close> has no \<^verbatim>\<open>.\<close>, is not named exactly
  \<^verbatim>\<open>pdf\<close>, and passes the filter, because the name is lower-cased before it is looked
  up.
\<close>

theorem dotless_exact_counterexample:
  "\<not> (\<forall>f. CHR ''.'' \<notin> set (file_name f) \<longrightarrow> (is_valid f \<longleftrightarrow> file_name f \<in> set recognized))"
proof
  assume a: "\<forall>f. CHR ''.'' \<notin> set (file_name f) \<longrightarrow> (is_valid f \<longleftrightarrow> file_name f \<in> set recognized)"
  have "CHR ''.'' \<notin> set (file_name \<lparr>file_name = ''PDF'', file_size = 0\<rparr>)"
    by simp
  moreover have "is_valid \<lparr>file_name = ''PDF'', file_size = 0\<rparr>"
    by code_simp
  moreover have "file_name \<lparr>file_name = ''PDF'', file_size = 0\<rparr> \<notin> set recognized"
    by (simp add: recognized_def)
  ultimately show False
    using a by blast
qed

text \<open>
  C9, amended. For a name without \<^verbatim>\<open>.\<close> the filter takes the whole name, lower-cased, as
  the extension: the file is kept exactly when its lower-cased name is \<^verbatim>\<open>pdf\<close>, \<^verbatim>\<open>png\<close>,
  \<^verbatim>\<open>jpg\<close>, \<^verbatim>\<open>jpeg\<close> or \<^verbatim>\<open>tiff\<close>; a file named exactly so is kept.
\<close>

theorem dotless_names:
  assumes "CHR ''.'' \<notin> set (file_name f)"
  shows "file_ext (file_name f) = Some (''.'' @ toLowerCase (file_name f))
     \<and> (is_valid f \<longleftrightarrow> toLowerCase (file_name f) \<in> set recognized)
     \<and> (file_name f \<in> set recognized \<longrightarrow> is_valid f)"
  using assms
  by (simp add: file_ext_eq is_valid_iff spec_accepts_def after_final_dot_dotless
        toLowerCase_recognized)

theorem dotless_names_witness:
  "is_valid \<lparr>file_name = ''pdf'', file_size = 0\<rparr>
   \<and> is_valid \<lparr>file_name = ''PDF'', file_size = 0\<rparr>
   \<and> \<not> is_valid \<lparr>file_name = ''readme'', file_size = 0\<rparr>"
proof -
  have l: "toLowerCase ''pdf'' = ''pdf''" "toLowerCase ''PDF'' = ''pdf''"
    "toLowerCase ''readme'' = ''readme''"
    by code_simp+
  show ?thesis
    using dotless_names[of "\<lparr>file_name = ''pdf'', file_size = 0\<rparr>"]
      dotless_names[of "\<lparr>file_name = ''PDF'', file_size = 0\<rparr>"]
      dotless_names[of "\<lparr>file_name = ''readme'', file_size = 0\<rparr>"]
    by (simp add: l recognized_def)
qed




end
